theory Spec2Isabelle
  imports Main "HOL-Library.AList"
begin

section \<open>TableData: a single table's column-wise data\<close>

subsection \<open>Values and JavaScript arrays\<close>

text \<open>
  A cell holds a JavaScript primitive. \<open>Undefined\<close> is what reading a missing array
  element or a hole yields. Numbers are the integers that row ids and positions are.
  Row ids are \<open>number\<close> in the TypeScript signatures; nothing checks that when the code
  runs, so a row id is a \<open>CellValue\<close> here and a theorem that needs numbers says so.
\<close>

datatype CellValue = Num int | Str string | Bool bool | Null | Undefined

fun isNum :: "CellValue \<Rightarrow> bool" where
  "isNum (Num n) = True"
| "isNum v = False"

text \<open>\<open>xs[i]\<close>: an index outside the array reads \<open>undefined\<close>.\<close>

definition jsGet :: "CellValue list \<Rightarrow> int \<Rightarrow> CellValue" where
  "jsGet xs i = (if 0 \<le> i \<and> i < int (length xs) then xs ! nat i else Undefined)"

text \<open>\<open>xs[i] = v\<close> for \<open>i \<ge> 0\<close>: writing past the end extends the array, leaving holes.\<close>

definition jsSet :: "CellValue list \<Rightarrow> nat \<Rightarrow> CellValue \<Rightarrow> CellValue list" where
  "jsSet xs i v =
     (if i < length xs then xs[i := v]
      else xs @ replicate (i - length xs) Undefined @ [v])"

text \<open>\<open>xs.pop()\<close>, as far as the array is concerned.\<close>

definition jsPop :: "CellValue list \<Rightarrow> CellValue list" where
  "jsPop xs = butlast xs"

text \<open>\<open>xs.indexOf(v)\<close>: the first position holding \<open>v\<close>, or \<open>-1\<close>.\<close>

fun indexOf :: "CellValue list \<Rightarrow> CellValue \<Rightarrow> int" where
  "indexOf [] v = -1"
| "indexOf (x # xs) v =
     (if x = v then 0 else (let k = indexOf xs v in if k < 0 then -1 else k + 1))"

subsection \<open>The data model\<close>

record ColData =
  colId :: string
  type :: string
  defl :: CellValue
  "values" :: "CellValue list"

type_synonym ColTypeMap = "(string \<times> string) list"
type_synonym ColValues = "(string \<times> CellValue) list"
type_synonym BulkColValues = "(string \<times> CellValue list) list"
type_synonym RowRecord = "(string \<times> CellValue) list"

text \<open>\<open>['TableData', tableId, rowIds, colValues]\<close>; \<open>ReplaceTableData\<close> has the same fields.\<close>

datatype TableDataAction = TableDataAction string "CellValue list" BulkColValues

fun tdaRowIds :: "TableDataAction \<Rightarrow> CellValue list" where
  "tdaRowIds (TableDataAction tid rowIds colValues) = rowIds"

fun tdaColValues :: "TableDataAction \<Rightarrow> BulkColValues" where
  "tdaColValues (TableDataAction tid rowIds colValues) = colValues"

text \<open>
  The objects of the class. A \<open>ColData\<close> object is shared between \<open>_columns\<close> and
  \<open>_colArray\<close>, and renaming or retyping a column mutates it in place, so the objects
  live in a store (\<open>heap\<close>, from addresses to objects) and the two containers hold
  addresses. The \<open>values\<close> field is assigned only when a \<open>ColData\<close> is created, so every
  array belongs to one object and lives inside it. \<open>_rowIdCol\<close> is the array of the
  \<open>'id'\<close> object, which is created first, at address \<open>idRef\<close>.
  The two \<open>Map\<close>s keep insertion order: association lists, with \<open>AList.update\<close> for
  \<open>set\<close> and \<open>AList.delete\<close> for \<open>delete\<close>.
\<close>

definition idRef :: nat where
  "idRef = 0"

record TableData =
  tableId :: string
  isLoaded :: bool
  fetchPromise :: "nat option"
  columns :: "(string \<times> nat) list"
  colArray :: "nat list"
  rowMap :: "(CellValue \<times> nat) list"
  heap :: "nat \<Rightarrow> ColData"
  nextRef :: nat

definition rowIdCol :: "TableData \<Rightarrow> CellValue list" where
  "rowIdCol t = values (heap t idRef)"

text \<open>Replace the array of the object at address \<open>r\<close>.\<close>

definition setValues :: "nat \<Rightarrow> CellValue list \<Rightarrow> TableData \<Rightarrow> TableData" where
  "setValues r vs t = t\<lparr>heap := (heap t)(r := (heap t r)\<lparr>values := vs\<rparr>)\<rparr>"

subsection \<open>Construction and loading\<close>

definition emptyColData :: ColData where
  "emptyColData = \<lparr>colId = [], type = [], defl = Undefined, values = []\<rparr>"

text \<open>
  One round of the constructor's loop over \<open>colTypes\<close>. \<open>getDefaultForType\<close> is imported
  from a module that is not part of the sources at hand, so it is a parameter \<open>gd\<close>.
\<close>

definition initColumn ::
  "(string \<Rightarrow> CellValue) \<Rightarrow> string \<times> string \<Rightarrow> TableData \<Rightarrow> TableData" where
  "initColumn gd ct t =
     (let r = nextRef t;
          colData = \<lparr>colId = fst ct, type = snd ct, defl = gd (snd ct), values = []\<rparr>
      in t\<lparr>columns := AList.update (fst ct) r (columns t),
           colArray := colArray t @ [r],
           heap := (heap t)(r := colData),
           nextRef := Suc r\<rparr>)"

text \<open>The constructor called with \<open>tableData = null\<close>.\<close>

definition newTableData :: "(string \<Rightarrow> CellValue) \<Rightarrow> string \<Rightarrow> ColTypeMap \<Rightarrow> TableData" where
  "newTableData gd tid colTypes =
     (let t0 = \<lparr>tableId = tid, isLoaded = False, fetchPromise = None, columns = [],
                colArray = [], rowMap = [],
                heap = (\<lambda>r. emptyColData)
                  (idRef := \<lparr>colId = ''id'', type = ''Id'', defl = Num 0, values = []\<rparr>),
                nextRef = Suc idRef\<rparr>;
          t1 = fold (initColumn gd) colTypes t0
      in t1\<lparr>columns := AList.update ''id'' idRef (columns t1)\<rparr>)"

text \<open>
  \<open>reassignArray(colData.values, values || this._rowIdCol.map(() => colData.defl))\<close> for
  one column of \<open>_colArray\<close>. An array, also an empty one, is truthy.
\<close>

definition loadColumn :: "BulkColValues \<Rightarrow> nat \<Rightarrow> TableData \<Rightarrow> TableData" where
  "loadColumn colValues r t =
     (let colData = heap t r
      in setValues r
           (case map_of colValues (colId colData) of
              Some vs \<Rightarrow> vs
            | None \<Rightarrow> map (\<lambda>x. defl colData) (rowIdCol t)) t)"

text \<open>The loop \<open>for (i = 0; i < rowIds.length; i++) this._rowMap.set(rowIds[i], i)\<close>.\<close>

fun indexRows :: "CellValue list \<Rightarrow> nat \<Rightarrow> (CellValue \<times> nat) list \<Rightarrow> (CellValue \<times> nat) list" where
  "indexRows [] i m = m"
| "indexRows (x # xs) i m = indexRows xs (Suc i) (AList.update x i m)"

text \<open>
  \<open>loadData\<close> returns the old row ids and the table. The snapshot is data of its own:
  its arrays are not the table's. Modelled from the spec: \<open>arraySplice\<close>, which
  \<open>reassignArray\<close> calls on the emptied array, comes from \<open>gutil\<close>, which is not among the
  sources; by the spec the values are replaced wholesale, so \<open>reassignArray\<close> leaves the
  elements of the source in the target (\<open>setValues\<close>).
\<close>

definition loadData :: "TableDataAction \<Rightarrow> TableData \<Rightarrow> CellValue list \<times> TableData" where
  "loadData tableData t =
     (let rowIds = tdaRowIds tableData;
          colValues = tdaColValues tableData;
          oldRowIds = rowIdCol t;
          t1 = setValues idRef rowIds t;
          t2 = fold (loadColumn colValues) (colArray t1) t1;
          t3 = t2\<lparr>rowMap := indexRows rowIds 0 []\<rparr>
      in (oldRowIds, t3\<lparr>isLoaded := True\<rparr>))"

text \<open>The constructor proper.\<close>

definition constructor ::
  "(string \<Rightarrow> CellValue) \<Rightarrow> string \<Rightarrow> TableDataAction option \<Rightarrow> ColTypeMap \<Rightarrow> TableData" where
  "constructor gd tid tableData colTypes =
     (let t = newTableData gd tid colTypes
      in case tableData of None \<Rightarrow> t | Some d \<Rightarrow> snd (loadData d t))"

subsection \<open>Queries\<close>

definition numRecords :: "TableData \<Rightarrow> nat" where
  "numRecords t = length (rowIdCol t)"

text \<open>\<open>undefined\<close> is the absent result of \<open>getValue\<close>.\<close>

definition getValue :: "CellValue \<Rightarrow> string \<Rightarrow> TableData \<Rightarrow> CellValue" where
  "getValue rowId cid t =
     (case map_of (columns t) cid of
        None \<Rightarrow> Undefined
      | Some r \<Rightarrow>
          (case map_of (rowMap t) rowId of
             None \<Rightarrow> Undefined
           | Some index \<Rightarrow> jsGet (values (heap t r)) (int index)))"


text \<open>
  The comparator \<open>(a, b) => a - b\<close> of \<open>getSortedRowIds\<close>. The subtraction is
  modelled on numbers, which is what \<open>_rowIdCol\<close> is declared to hold; with any other
  operand the result counts as \<open>NaN\<close>, which \<open>sort\<close> reads as 0.
\<close>

fun rowIdCompare :: "CellValue \<Rightarrow> CellValue \<Rightarrow> int" where
  "rowIdCompare (Num a) (Num b) = a - b"
| "rowIdCompare a b = 0"

text \<open>\<open>Array.prototype.sort\<close> is stable: an element goes behind the ones it equals.\<close>

fun sortInsert :: "('a \<Rightarrow> 'a \<Rightarrow> int) \<Rightarrow> 'a \<Rightarrow> 'a list \<Rightarrow> 'a list" where
  "sortInsert cmp x [] = [x]"
| "sortInsert cmp x (y # ys) =
     (if cmp x y < 0 then x # y # ys else y # sortInsert cmp x ys)"

definition jsSort :: "('a \<Rightarrow> 'a \<Rightarrow> int) \<Rightarrow> 'a list \<Rightarrow> 'a list" where
  "jsSort cmp xs = fold (sortInsert cmp) xs []"

definition getSortedRowIds :: "TableData \<Rightarrow> CellValue list" where
  "getSortedRowIds t = jsSort rowIdCompare (rowIdCol t)"


definition getColValues :: "string \<Rightarrow> TableData \<Rightarrow> CellValue list option" where
  "getColValues cid t =
     (case map_of (columns t) cid of None \<Rightarrow> None | Some r \<Rightarrow> Some (values (heap t r)))"


definition getColType :: "string \<Rightarrow> TableData \<Rightarrow> string option" where
  "getColType cid t =
     (case map_of (columns t) cid of None \<Rightarrow> None | Some r \<Rightarrow> Some (type (heap t r)))"

definition getRecord :: "CellValue \<Rightarrow> TableData \<Rightarrow> RowRecord option" where
  "getRecord rowId t =
     (case map_of (rowMap t) rowId of
        None \<Rightarrow> None
      | Some index \<Rightarrow>
          Some (fold (\<lambda>r ret. AList.update (colId (heap t r))
                                (jsGet (values (heap t r)) (int index)) ret)
                  (colArray t) [(''id'', jsGet (rowIdCol t) (int index))]))"

text \<open>
  \<open>filterRecords\<close>. Reading \<open>.values\<close> of \<open>undefined\<close> throws a \<open>TypeError\<close>, so the
  result is an error or the records.
\<close>

datatype JSError = TypeError

text \<open>The inner loop over \<open>props\<close> for the row at position \<open>i\<close>.\<close>

fun rowMatches :: "TableData \<Rightarrow> nat \<Rightarrow> (CellValue \<times> nat option) list \<Rightarrow> JSError + bool" where
  "rowMatches t i [] = Inr True"
| "rowMatches t i ((v, None) # ps) = Inl TypeError"
| "rowMatches t i ((v, Some r) # ps) =
     (if jsGet (values (heap t r)) (int i) \<noteq> v then Inr False else rowMatches t i ps)"

text \<open>The \<open>forEach\<close> over the positions, collecting the matching ones.\<close>

fun matchingRows ::
  "TableData \<Rightarrow> (CellValue \<times> nat option) list \<Rightarrow> nat list \<Rightarrow> JSError + nat list" where
  "matchingRows t props [] = Inr []"
| "matchingRows t props (i # is) =
     (case rowMatches t i props of
        Inl e \<Rightarrow> Inl e
      | Inr b \<Rightarrow>
          (case matchingRows t props is of
             Inl e \<Rightarrow> Inl e
           | Inr rest \<Rightarrow> Inr (if b then i # rest else rest)))"

definition filterRecords :: "(string \<times> CellValue) list \<Rightarrow> TableData \<Rightarrow> JSError + RowRecord list" where
  "filterRecords properties t =
     (let props = map (\<lambda>(p, v). (v, map_of (columns t) p)) properties
      in case matchingRows t props [0..<length (rowIdCol t)] of
           Inl e \<Rightarrow> Inl e
         | Inr rowIndices \<Rightarrow>
             Inr (map (\<lambda>i. fold (\<lambda>r ret. AList.update (colId (heap t r))
                                         (jsGet (values (heap t r)) (int i)) ret)
                             (colArray t) [(''id'', jsGet (rowIdCol t) (int i))])
                    rowIndices))"

definition findRow :: "string \<Rightarrow> CellValue \<Rightarrow> TableData \<Rightarrow> CellValue" where
  "findRow cid colValue t =
     (case map_of (columns t) cid of
        None \<Rightarrow> Num 0
      | Some r \<Rightarrow>
          (let index = indexOf (values (heap t r)) colValue
           in if index < 0 then Num 0 else jsGet (rowIdCol t) index))"

subsection \<open>Actions and their handlers\<close>

text \<open>
  Of a \<open>ColInfo\<close> the handlers read the \<open>type\<close> property only: \<open>AddColumn\<close> carries it,
  \<open>ModifyColumn\<close> carries it when its partial \<open>ColInfo\<close> has one.
\<close>

datatype DocAction =
    AddRecord string CellValue ColValues
  | BulkAddRecord string "CellValue list" BulkColValues
  | RemoveRecord string CellValue
  | BulkRemoveRecord string "CellValue list"
  | UpdateRecord string CellValue ColValues
  | BulkUpdateRecord string "CellValue list" BulkColValues
  | ReplaceTableData string "CellValue list" BulkColValues
  | AddColumn string string string
  | RemoveColumn string string
  | RenameColumn string string string
  | ModifyColumn string string "string option"
  | AddTable string "(string \<times> string) list"
  | RemoveTable string
  | RenameTable string string

text \<open>
  A loop \<open>for (const {colId, defl, values} of ...)\<close> that writes into \<open>values\<close>: \<open>updCol F\<close>
  is one round, \<open>F\<close> giving the array after the round from the object before it.
\<close>

definition updCol :: "(ColData \<Rightarrow> CellValue list) \<Rightarrow> nat \<Rightarrow> TableData \<Rightarrow> TableData" where
  "updCol F r t = setValues r (F (heap t r)) t"

definition onAddRecord :: "CellValue \<Rightarrow> ColValues \<Rightarrow> TableData \<Rightarrow> TableData" where
  "onAddRecord rowId colValues t =
     (let index = length (rowIdCol t);
          t1 = t\<lparr>rowMap := AList.update rowId index (rowMap t)\<rparr>;
          t2 = setValues idRef (jsSet (rowIdCol t1) index rowId) t1
      in fold (updCol (\<lambda>c. jsSet (values c) index
                 (case map_of colValues (colId c) of Some v \<Rightarrow> v | None \<Rightarrow> defl c)))
           (colArray t2) t2)"

text \<open>The first loop of \<open>onBulkAddRecord\<close>, from position \<open>k\<close> on.\<close>

fun bulkAddIds :: "CellValue list \<Rightarrow> nat \<Rightarrow> TableData \<Rightarrow> TableData" where
  "bulkAddIds [] k t = t"
| "bulkAddIds (x # xs) k t =
     bulkAddIds xs (Suc k)
       (setValues idRef (jsSet (rowIdCol t) k x) (t\<lparr>rowMap := AList.update x k (rowMap t)\<rparr>))"

definition onBulkAddRecord :: "CellValue list \<Rightarrow> BulkColValues \<Rightarrow> TableData \<Rightarrow> TableData" where
  "onBulkAddRecord rowIds colValues t =
     (let index = length (rowIdCol t);
          t1 = bulkAddIds rowIds index t
      in fold (updCol (\<lambda>c. fold (\<lambda>i vs. jsSet vs (index + i)
                                   (case map_of colValues (colId c) of
                                      Some cvs \<Rightarrow> jsGet cvs (int i)
                                    | None \<Rightarrow> defl c))
                             [0..<length rowIds] (values c)))
           (colArray t1) t1)"

definition onRemoveRecord :: "CellValue \<Rightarrow> TableData \<Rightarrow> TableData" where
  "onRemoveRecord rowId t =
     (case map_of (rowMap t) rowId of
        None \<Rightarrow> t
      | Some index \<Rightarrow>
          (let last = int (length (rowIdCol t)) - 1;
               t1 = fold (updCol (\<lambda>c. jsPop (jsSet (values c) index (jsGet (values c) last))))
                      (map snd (columns t)) t;
               t2 = t1\<lparr>rowMap := AList.update (jsGet (rowIdCol t1) (int index)) index (rowMap t1)\<rparr>
           in t2\<lparr>rowMap := AList.delete rowId (rowMap t2)\<rparr>))"

text \<open>\<open>colData.values[index] = v\<close> for the column \<open>_columns.get(colId)\<close>, when there is one.\<close>

definition writeCell :: "nat \<Rightarrow> string \<Rightarrow> CellValue \<Rightarrow> TableData \<Rightarrow> TableData" where
  "writeCell index cid v t =
     (case map_of (columns t) cid of
        None \<Rightarrow> t
      | Some r \<Rightarrow> setValues r (jsSet (values (heap t r)) index v) t)"

definition onUpdateRecord :: "CellValue \<Rightarrow> ColValues \<Rightarrow> TableData \<Rightarrow> TableData" where
  "onUpdateRecord rowId colValues t =
     (case map_of (rowMap t) rowId of
        None \<Rightarrow> t
      | Some index \<Rightarrow> fold (\<lambda>(cid, v). writeCell index cid v) colValues t)"

text \<open>One round of the loop of \<open>onBulkUpdateRecord\<close>: the row id at position \<open>i\<close>.\<close>

definition bulkUpdateRow :: "BulkColValues \<Rightarrow> nat \<times> CellValue \<Rightarrow> TableData \<Rightarrow> TableData" where
  "bulkUpdateRow colValues ir t =
     (case map_of (rowMap t) (snd ir) of
        None \<Rightarrow> t
      | Some index \<Rightarrow>
          fold (\<lambda>(cid, vs). writeCell index cid (jsGet vs (int (fst ir)))) colValues t)"

definition onBulkUpdateRecord :: "CellValue list \<Rightarrow> BulkColValues \<Rightarrow> TableData \<Rightarrow> TableData" where
  "onBulkUpdateRecord rowIds colValues t =
     fold (bulkUpdateRow colValues) (enumerate 0 rowIds) t"

text \<open>\<open>onReplaceTableData\<close> hands the action itself to \<open>loadData\<close>.\<close>

definition onReplaceTableData ::
  "string \<Rightarrow> CellValue list \<Rightarrow> BulkColValues \<Rightarrow> TableData \<Rightarrow> TableData" where
  "onReplaceTableData tid rowIds colValues t =
     snd (loadData (TableDataAction tid rowIds colValues) t)"

definition onAddColumn ::
  "(string \<Rightarrow> CellValue) \<Rightarrow> string \<Rightarrow> string \<Rightarrow> TableData \<Rightarrow> TableData" where
  "onAddColumn gd cid ty t =
     (if map_of (columns t) cid \<noteq> None then t
      else (let r = nextRef t;
                d = gd ty;
                colData = \<lparr>colId = cid, type = ty, defl = d,
                           values = map (\<lambda>x. d) (rowIdCol t)\<rparr>
            in t\<lparr>columns := AList.update cid r (columns t),
                 colArray := colArray t @ [r],
                 heap := (heap t)(r := colData),
                 nextRef := Suc r\<rparr>))"

text \<open>
  Modelled from the spec: \<open>arrayRemove\<close> comes from \<open>gutil\<close>, which is not among the
  sources. By the spec removing a column drops it from the lookup and from the ordered
  column list: the object is taken out of \<open>_colArray\<close>, where it is once.
\<close>

definition onRemoveColumn :: "string \<Rightarrow> TableData \<Rightarrow> TableData" where
  "onRemoveColumn cid t =
     (case map_of (columns t) cid of
        None \<Rightarrow> t
      | Some r \<Rightarrow> t\<lparr>columns := AList.delete cid (columns t), colArray := remove1 r (colArray t)\<rparr>)"

definition onRenameColumn :: "string \<Rightarrow> string \<Rightarrow> TableData \<Rightarrow> TableData" where
  "onRenameColumn oldColId newColId t =
     (case map_of (columns t) oldColId of
        None \<Rightarrow> t
      | Some r \<Rightarrow>
          t\<lparr>heap := (heap t)(r := (heap t r)\<lparr>colId := newColId\<rparr>),
            columns := AList.delete oldColId (AList.update newColId r (columns t))\<rparr>)"

definition onModifyColumn ::
  "(string \<Rightarrow> CellValue) \<Rightarrow> string \<Rightarrow> string option \<Rightarrow> TableData \<Rightarrow> TableData" where
  "onModifyColumn gd oldColId colInfo t =
     (case (map_of (columns t) oldColId, colInfo) of
        (Some r, Some ty) \<Rightarrow> t\<lparr>heap := (heap t)(r := (heap t r)\<lparr>type := ty, defl := gd ty\<rparr>)\<rparr>
      | _ \<Rightarrow> t)"

definition onRenameTable :: "string \<Rightarrow> TableData \<Rightarrow> TableData" where
  "onRenameTable newTableId t = t\<lparr>tableId := newTableId\<rparr>"

definition onAddTable :: "TableData \<Rightarrow> TableData" where
  "onAddTable t = t"

definition onRemoveTable :: "TableData \<Rightarrow> TableData" where
  "onRemoveTable t = t\<lparr>isLoaded := False\<rparr>"

text \<open>
  Modelled from the spec: the base class \<open>ActionDispatcher\<close> is not among the sources.
  \<open>TableData\<close> inherits its \<open>onBulkRemoveRecord\<close>; by the spec the bulk actions are the
  single ones applied index for index.
\<close>

definition onBulkRemoveRecord :: "CellValue list \<Rightarrow> TableData \<Rightarrow> TableData" where
  "onBulkRemoveRecord rowIds t = fold onRemoveRecord rowIds t"

text \<open>
  Modelled from the spec: \<open>dispatchAction\<close> of \<open>ActionDispatcher\<close>, which is not among
  the sources, routes an action by its tag to the handler of that name, with the fields
  of the action as arguments. The handlers are the ones above.
\<close>

fun dispatchAction :: "(string \<Rightarrow> CellValue) \<Rightarrow> DocAction \<Rightarrow> TableData \<Rightarrow> TableData" where
  "dispatchAction gd (AddRecord tid rowId colValues) t = onAddRecord rowId colValues t"
| "dispatchAction gd (BulkAddRecord tid rowIds colValues) t = onBulkAddRecord rowIds colValues t"
| "dispatchAction gd (RemoveRecord tid rowId) t = onRemoveRecord rowId t"
| "dispatchAction gd (BulkRemoveRecord tid rowIds) t = onBulkRemoveRecord rowIds t"
| "dispatchAction gd (UpdateRecord tid rowId colValues) t = onUpdateRecord rowId colValues t"
| "dispatchAction gd (BulkUpdateRecord tid rowIds colValues) t =
     onBulkUpdateRecord rowIds colValues t"
| "dispatchAction gd (ReplaceTableData tid rowIds colValues) t =
     onReplaceTableData tid rowIds colValues t"
| "dispatchAction gd (AddColumn tid cid ty) t = onAddColumn gd cid ty t"
| "dispatchAction gd (RemoveColumn tid cid) t = onRemoveColumn cid t"
| "dispatchAction gd (RenameColumn tid oldColId newColId) t = onRenameColumn oldColId newColId t"
| "dispatchAction gd (ModifyColumn tid oldColId colInfo) t = onModifyColumn gd oldColId colInfo t"
| "dispatchAction gd (AddTable tid cols) t = onAddTable t"
| "dispatchAction gd (RemoveTable tid) t = onRemoveTable t"
| "dispatchAction gd (RenameTable oldTableId newTableId) t = onRenameTable newTableId t"

text \<open>
  Modelled from the spec: \<open>isSchemaAction\<close> is imported from \<open>DocActions\<close>, which is not
  among the sources. By the spec the schema actions are the ones that add, remove,
  rename or retype a column or a table.
\<close>

fun isSchemaAction :: "DocAction \<Rightarrow> bool" where
  "isSchemaAction (AddColumn tid cid ty) = True"
| "isSchemaAction (RemoveColumn tid cid) = True"
| "isSchemaAction (RenameColumn tid oldColId newColId) = True"
| "isSchemaAction (ModifyColumn tid oldColId colInfo) = True"
| "isSchemaAction (AddTable tid cols) = True"
| "isSchemaAction (RemoveTable tid) = True"
| "isSchemaAction (RenameTable oldTableId newTableId) = True"
| "isSchemaAction a = False"

text \<open>\<open>receiveAction\<close> returns whether the action was applied, and the table.\<close>

definition receiveAction ::
  "(string \<Rightarrow> CellValue) \<Rightarrow> DocAction \<Rightarrow> TableData \<Rightarrow> bool \<times> TableData" where
  "receiveAction gd action t =
     (if isLoaded t \<or> isSchemaAction action then (True, dispatchAction gd action t)
      else (False, t))"

subsection \<open>Properties of a table\<close>

text \<open>What \<open>loadData\<close> puts into a column of \<open>_colArray\<close> when the snapshot has \<open>n\<close> rows.\<close>

definition loadedValues :: "BulkColValues \<Rightarrow> nat \<Rightarrow> ColData \<Rightarrow> CellValue list" where
  "loadedValues cv n c =
     (case map_of cv (colId c) of Some vs \<Rightarrow> vs | None \<Rightarrow> replicate n (defl c))"

text \<open>
  The shape every table built by the constructor and the schema handlers has: no object
  is listed twice, \<open>_colArray\<close> holds the objects of \<open>_columns\<close> but the \<open>'id'\<close> one, and
  the \<open>'id'\<close> object is under the key \<open>'id'\<close>.
\<close>

definition schemaOk :: "TableData \<Rightarrow> bool" where
  "schemaOk t \<longleftrightarrow>
     distinct (map snd (columns t)) \<and> distinct (colArray t) \<and> idRef \<notin> set (colArray t) \<and>
     map_of (columns t) ''id'' = Some idRef \<and>
     set (map snd (columns t)) = insert idRef (set (colArray t))"

text \<open>
  Index consistency: \<open>rowMap[rowIdCol[i]] = i\<close> at every position, \<open>rowIdCol[rowMap[id]] = id\<close>
  for every row id (a number) that \<open>_rowMap\<close> knows, and every column as long as
  \<open>_rowIdCol\<close>.
\<close>

definition indexConsistent :: "TableData \<Rightarrow> bool" where
  "indexConsistent t \<longleftrightarrow>
     (\<forall>i<length (rowIdCol t). map_of (rowMap t) (rowIdCol t ! i) = Some i) \<and>
     (\<forall>(k, i) \<in> set (rowMap t). isNum k \<longrightarrow> i < length (rowIdCol t) \<and> rowIdCol t ! i = k) \<and>
     (\<forall>r \<in> set (map snd (columns t)) \<union> set (colArray t).
        length (values (heap t r)) = length (rowIdCol t))"

text \<open>The invariant: a well-shaped table whose row ids are numbers and whose index is consistent.\<close>

definition tableOk :: "TableData \<Rightarrow> bool" where
  "tableOk t \<longleftrightarrow>
     schemaOk t \<and> list_all isNum (rowIdCol t) \<and> distinct (map fst (rowMap t)) \<and>
     indexConsistent t"

text \<open>The index part of the invariant, on the row ids and the map alone.\<close>

definition idxOk :: "CellValue list \<Rightarrow> (CellValue \<times> nat) list \<Rightarrow> bool" where
  "idxOk ids m \<longleftrightarrow>
     list_all isNum ids \<and> distinct (map fst m) \<and>
     (\<forall>i<length ids. map_of m (ids ! i) = Some i) \<and>
     (\<forall>k i. map_of m k = Some i \<longrightarrow> isNum k \<longrightarrow> i < length ids \<and> ids ! i = k)"




subsection \<open>Exporting a table and loading the export\<close>



text \<open>What holds of the columns while the constructor adds them, when no column id comes twice.\<close>

definition buildOk :: "TableData \<Rightarrow> bool" where
  "buildOk t \<longleftrightarrow>
     distinct (map snd (columns t)) \<and> distinct (colArray t) \<and>
     set (map snd (columns t)) = set (colArray t) \<and>
     (\<forall>r \<in> set (colArray t). idRef < r \<and> r < nextRef t) \<and> idRef < nextRef t"


subsection \<open>A table to try things on\<close>

definition exampleDefault :: "string \<Rightarrow> CellValue" where
  "exampleDefault ty = (if ty = ''Text'' then Str [] else Num 0)"

definition exampleTable :: TableData where
  "exampleTable =
     constructor exampleDefault ''T''
       (Some (TableDataAction ''T'' [Num 1, Num 2] [(''A'', [Str ''a'', Str ''b''])]))
       [(''A'', ''Text''), (''B'', ''Int'')]"


definition exampleSnapshot :: TableDataAction where
  "exampleSnapshot =
     TableDataAction ''T'' [Num 5, Num 6, Num 7] [(''B'', [Num 50, Num 60, Num 70])]"

text \<open>A table with the row ids 1, 2, 3, 4 in storage order.\<close>

definition exampleTable4 :: TableData where
  "exampleTable4 =
     constructor exampleDefault ''T''
       (Some (TableDataAction ''T'' [Num 1, Num 2, Num 3, Num 4]
          [(''A'', [Str ''a'', Str ''b'', Str ''c'', Str ''d''])]))
       [(''A'', ''Text''), (''B'', ''Int'')]"

section \<open>fetchData and its promise\<close>

text \<open>
  \<open>fetchData\<close> stores the promise \<open>fetchFunc(tableId).then(...)\<close> in \<open>_fetchPromise\<close>. A
  promise is pending until it is fulfilled or rejected, once. The world around the table
  keeps the promises made so far (promise \<open>k\<close> is entry \<open>k\<close>) and the calls of \<open>fetchFunc\<close>,
  each with the table id it was given. Entry \<open>k\<close> stands for the promise of the \<open>k\<close>-th
  call of \<open>fetchFunc\<close> together with the promise \<open>then\<close> derives from it: when the first is
  fulfilled the callback runs and the second is fulfilled; when the first is rejected the
  callback does not run and the second is rejected with the same reason.
\<close>

datatype PromiseState = Pending | Fulfilled | Rejected string

record World =
  table :: TableData
  promises :: "PromiseState list"
  fetchCalls :: "string list"

text \<open>\<open>fetchData\<close> returns the promise, and the world.\<close>

definition fetchData :: "World \<Rightarrow> nat \<times> World" where
  "fetchData w =
     (case fetchPromise (table w) of
        None \<Rightarrow>
          (let p = length (promises w)
           in (p, w\<lparr>fetchCalls := fetchCalls w @ [tableId (table w)],
                    promises := promises w @ [Pending],
                    table := (table w)\<lparr>fetchPromise := Some p\<rparr>\<rparr>))
      | Some p \<Rightarrow> (p, w))"

text \<open>
  The fetch of promise \<open>k\<close> succeeds with \<open>data\<close>: the callback
  \<open>data => { this._fetchPromise = undefined; this.loadData(data); }\<close> runs.
\<close>

definition fetchResolved :: "nat \<Rightarrow> TableDataAction \<Rightarrow> World \<Rightarrow> World" where
  "fetchResolved k d w =
     (if k < length (promises w) \<and> promises w ! k = Pending
      then w\<lparr>table := snd (loadData d ((table w)\<lparr>fetchPromise := None\<rparr>)),
             promises := (promises w)[k := Fulfilled]\<rparr>
      else w)"

text \<open>The fetch of promise \<open>k\<close> fails: no callback is registered for that.\<close>

definition fetchRejected :: "nat \<Rightarrow> string \<Rightarrow> World \<Rightarrow> World" where
  "fetchRejected k e w =
     (if k < length (promises w) \<and> promises w ! k = Pending
      then w\<lparr>promises := (promises w)[k := Rejected e]\<rparr>
      else w)"

text \<open>What can happen around \<open>fetchData\<close>, and a run of such events.\<close>

datatype FetchEvent =
    CallFetchData
  | FetchResolved nat TableDataAction
  | FetchRejected nat string

fun fetchStep :: "FetchEvent \<Rightarrow> World \<Rightarrow> World" where
  "fetchStep CallFetchData w = snd (fetchData w)"
| "fetchStep (FetchResolved k d) w = fetchResolved k d w"
| "fetchStep (FetchRejected k e) w = fetchRejected k e w"

text \<open>\<open>n\<close> calls of \<open>fetchData\<close> in a row: the promises they return, and the world.\<close>

fun repeatFetch :: "nat \<Rightarrow> World \<Rightarrow> nat list \<times> World" where
  "repeatFetch 0 w = ([], w)"
| "repeatFetch (Suc n) w =
     (let r = fetchData w; rest = repeatFetch n (snd r) in (fst r # fst rest, snd rest))"

text \<open>A world with a table that was never loaded and no promise yet.\<close>

definition exampleWorld :: World where
  "exampleWorld =
     \<lparr>table = newTableData exampleDefault ''T'' [(''A'', ''Text''), (''B'', ''Int'')],
      promises = [], fetchCalls = []\<rparr>"

section \<open>SQLiteDB: transactions and migrations\<close>

subsection \<open>The database behind the connection\<close>

text \<open>
  SQLite itself is outside the sources. What the class relies on is modelled as follows.
  A database has its \<open>user_version\<close> and its tables, each with its columns (name and type)
  and its rows. The connection sees the content \<open>cur\<close>; while SQLite has a transaction
  open, \<open>saved\<close> is the content at its \<open>BEGIN\<close>, which \<open>ROLLBACK\<close> brings back. SQLite
  refuses a \<open>BEGIN\<close> inside a transaction, a \<open>COMMIT\<close> or \<open>ROLLBACK\<close> outside of one and a
  \<open>VACUUM\<close> inside of one; a statement that fails changes nothing; input and output
  errors are left out. \<open>PRAGMA user_version\<close> belongs to the transaction like any other
  change. \<open>stmts\<close> records the transaction statements and \<open>VACUUM\<close>s sent to SQLite.
\<close>

datatype Error = Error string


type_synonym Table = "(string \<times> string) list \<times> string list list"

record Database =
  user_version :: nat
  tables :: "(string \<times> Table) list"


datatype Control = BEGIN | COMMIT | ROLLBACK | VACUUM

text \<open>
  The object: the connection (\<open>cur\<close>, \<open>saved\<close>, \<open>readonly\<close>, \<open>stmts\<close>), the fields of the
  class, and the backup files beside the database file (path and content).
  \<open>_prevTransaction\<close> only makes a transaction started while another one runs wait for
  it; the calls here come one after the other, so it has no part.
\<close>

record SQLiteDB =
  cur :: Database
  saved :: "Database option"
  readonly :: bool
  stmts :: "Control list"
  dbPath :: string
  inTransaction :: bool
  needVacuum :: bool
  migrationBackupPath :: "string option"
  migrationError :: "Error option"
  backups :: "(string \<times> Database) list"

text \<open>\<open>exec\<close> of a transaction statement or a \<open>VACUUM\<close>: the error thrown, if any, and the object.\<close>

fun execControl :: "Control \<Rightarrow> SQLiteDB \<Rightarrow> Error option \<times> SQLiteDB" where
  "execControl BEGIN h =
     (case saved h of
        None \<Rightarrow> (None, h\<lparr>saved := Some (cur h), stmts := stmts h @ [BEGIN]\<rparr>)
      | Some s \<Rightarrow> (Some (Error ''cannot start a transaction within a transaction''),
                   h\<lparr>stmts := stmts h @ [BEGIN]\<rparr>))"
| "execControl COMMIT h =
     (case saved h of
        None \<Rightarrow> (Some (Error ''cannot commit - no transaction is active''),
                 h\<lparr>stmts := stmts h @ [COMMIT]\<rparr>)
      | Some s \<Rightarrow> (None, h\<lparr>saved := None, stmts := stmts h @ [COMMIT]\<rparr>))"
| "execControl ROLLBACK h =
     (case saved h of
        None \<Rightarrow> (Some (Error ''cannot rollback - no transaction is active''),
                 h\<lparr>stmts := stmts h @ [ROLLBACK]\<rparr>)
      | Some s \<Rightarrow> (None, h\<lparr>cur := s, saved := None, stmts := stmts h @ [ROLLBACK]\<rparr>))"
| "execControl VACUUM h =
     (case saved h of
        None \<Rightarrow> (None, h\<lparr>stmts := stmts h @ [VACUUM]\<rparr>)
      | Some s \<Rightarrow> (Some (Error ''cannot VACUUM from within a transaction''),
                   h\<lparr>stmts := stmts h @ [VACUUM]\<rparr>))"

text \<open>
  \<open>exec\<close> or \<open>run\<close> of any other statement: \<open>f\<close> says what it makes of the content, or the
  error it fails with. A statement that would change the content of a read-only
  connection fails.
\<close>

definition execStatement ::
  "(Database \<Rightarrow> Error + Database) \<Rightarrow> SQLiteDB \<Rightarrow> Error option \<times> SQLiteDB" where
  "execStatement f h =
     (case f (cur h) of
        Inl e \<Rightarrow> (Some e, h)
      | Inr d \<Rightarrow>
          (if readonly h \<and> d \<noteq> cur h
           then (Some (Error ''attempt to write a readonly database''), h)
           else (None, h\<lparr>cur := d\<rparr>)))"


subsection \<open>Callbacks\<close>

text \<open>
  A callback (the body of a transaction, a \<open>DBFunc\<close> of a \<open>SchemaInfo\<close>) works on the object
  through its public methods. What it does is a program: statements, one after the
  other, a \<open>throw\<close>, a \<open>try\<close> with its \<open>catch\<close>, a nested \<open>execTransaction\<close>, and
  \<open>requestVacuum\<close>. The value a callback returns is left out: a run ends well (\<open>None\<close>) or
  with the error thrown.
\<close>

datatype Prog =
    Skip
  | Statement "Database \<Rightarrow> Error + Database"
  | Throw Error
  | Seq Prog Prog
  | TryCatch Prog Prog
  | Transaction Prog
  | RequestVacuum

text \<open>\<open>requestVacuum\<close>: deferred inside a transaction.\<close>

definition requestVacuum :: "SQLiteDB \<Rightarrow> Error option \<times> SQLiteDB" where
  "requestVacuum h =
     (if inTransaction h then (None, h\<lparr>needVacuum := True\<rparr>)
      else (case execControl VACUUM h of
              (Some e, h1) \<Rightarrow> (Some e, h1)
            | (None, h1) \<Rightarrow> (None, h1\<lparr>needVacuum := False\<rparr>)))"

text \<open>
  The \<open>finally\<close> of \<open>execTransaction\<close>: the deferred \<open>VACUUM\<close>. An error thrown there takes
  the place of the outcome \<open>r\<close>.
\<close>

definition afterTransaction :: "Error option \<Rightarrow> SQLiteDB \<Rightarrow> Error option \<times> SQLiteDB" where
  "afterTransaction r h =
     (if needVacuum h
      then (case requestVacuum h of
              (Some e, h1) \<Rightarrow> (Some e, h1)
            | (None, h1) \<Rightarrow> (r, h1))
      else (r, h))"

text \<open>
  The end of \<open>_execTransactionImpl\<close>, after the callback ended with \<open>r\<close>: \<open>COMMIT\<close>, or
  \<open>ROLLBACK\<close> and the original error again. An error of the \<open>ROLLBACK\<close> is logged only.
\<close>

definition endTransaction :: "Error option \<Rightarrow> SQLiteDB \<Rightarrow> Error option \<times> SQLiteDB" where
  "endTransaction r h =
     (case r of
        None \<Rightarrow>
          (case execControl COMMIT h of
             (None, h1) \<Rightarrow> (None, h1)
           | (Some e, h1) \<Rightarrow> (Some e, snd (execControl ROLLBACK h1)))
      | Some e \<Rightarrow> (Some e, snd (execControl ROLLBACK h)))"

text \<open>
  \<open>run\<close> runs a program; \<open>execTransaction\<close> is the method, with \<open>_execTransactionImpl\<close>
  inside: when \<open>_inTransaction\<close> is set the callback runs as it is; otherwise \<open>BEGIN\<close> (an
  error of which leaves at once), the callback between \<open>_inTransaction = true\<close> and
  \<open>_inTransaction = false\<close>, the end of the transaction, and the \<open>finally\<close>.
\<close>

fun run :: "Prog \<Rightarrow> SQLiteDB \<Rightarrow> Error option \<times> SQLiteDB"
  and execTransaction :: "Prog \<Rightarrow> SQLiteDB \<Rightarrow> Error option \<times> SQLiteDB" where
  "run Skip h = (None, h)"
| "run (Statement f) h = execStatement f h"
| "run (Throw e) h = (Some e, h)"
| "run (Seq a b) h =
     (case run a h of
        (Some e, h1) \<Rightarrow> (Some e, h1)
      | (None, h1) \<Rightarrow> run b h1)"
| "run (TryCatch a b) h =
     (case run a h of
        (Some e, h1) \<Rightarrow> run b h1
      | (None, h1) \<Rightarrow> (None, h1))"
| "run (Transaction b) h = execTransaction b h"
| "run RequestVacuum h = requestVacuum h"
| "execTransaction b h =
     (if inTransaction h then run b h
      else (case execControl BEGIN h of
              (Some e, h1) \<Rightarrow> afterTransaction (Some e) h1
            | (None, h1) \<Rightarrow>
                (case run b (h1\<lparr>inTransaction := True\<rparr>) of
                   (r, h2) \<Rightarrow>
                     (case endTransaction r (h2\<lparr>inTransaction := False\<rparr>) of
                        (r', h3) \<Rightarrow> afterTransaction r' h3))))"

subsection \<open>Opening and migrating\<close>
















text \<open>A connection to a database with content \<open>d\<close>, as \<open>openDBRaw\<close> and the constructor leave it.\<close>

definition newSQLiteDB ::
  "string \<Rightarrow> bool \<Rightarrow> Database \<Rightarrow> (string \<times> Database) list \<Rightarrow> SQLiteDB" where
  "newSQLiteDB path ro d bs =
     \<lparr>cur = d, saved = None, readonly = ro, stmts = [], dbPath = path,
      inTransaction = False, needVacuum = False, migrationBackupPath = None,
      migrationError = None, backups = bs\<rparr>"







subsection \<open>Properties of transactions\<close>

text \<open>The object right after the \<open>BEGIN\<close> of \<open>execTransaction\<close>, as the callback finds it.\<close>

definition began :: "SQLiteDB \<Rightarrow> SQLiteDB" where
  "began h = h\<lparr>saved := Some (cur h), stmts := stmts h @ [BEGIN], inTransaction := True\<rparr>"

text \<open>Two objects that differ in the content of the database and in \<open>_needVacuum\<close> at most.\<close>

definition sameButContent :: "SQLiteDB \<Rightarrow> SQLiteDB \<Rightarrow> bool" where
  "sameButContent h h' \<longleftrightarrow>
     saved h' = saved h \<and> stmts h' = stmts h \<and> inTransaction h' = inTransaction h \<and>
     readonly h' = readonly h \<and> dbPath h' = dbPath h \<and> backups h' = backups h \<and>
     migrationBackupPath h' = migrationBackupPath h \<and> migrationError h' = migrationError h"

subsection \<open>A database to try things on\<close>

text \<open>\<open>CREATE TABLE\<close>: fails when there is a table of that name.\<close>

definition createTable :: "string \<Rightarrow> (string \<times> string) list \<Rightarrow> Database \<Rightarrow> Error + Database" where
  "createTable name cols d =
     (if map_of (tables d) name \<noteq> None then Inl (Error (''table '' @ name @ '' already exists''))
      else Inr (d\<lparr>tables := tables d @ [(name, (cols, []))]\<rparr>))"

text \<open>A database at version 1 with a table \<open>Foo\<close>.\<close>

definition exampleDatabase :: Database where
  "exampleDatabase =
     \<lparr>user_version = 1, tables = [(''Foo'', ([(''A'', ''TEXT'')], [[''x''], [''y'']]))]\<rparr>"


definition exampleDB :: SQLiteDB where
  "exampleDB = newSQLiteDB ''doc.db'' False exampleDatabase []"

text \<open>Two callbacks with an \<open>execTransaction\<close> inside; the second one throws in there.\<close>

definition nestedOk :: Prog where
  "nestedOk =
     Seq (Statement (createTable ''Bar'' [(''B'', ''TEXT'')]))
         (Transaction (Statement (createTable ''Baz'' [(''C'', ''TEXT'')])))"

definition nestedFails :: Prog where
  "nestedFails =
     Seq (Statement (createTable ''Bar'' [(''B'', ''TEXT'')]))
         (Transaction (Seq (Statement (createTable ''Baz'' [(''C'', ''TEXT'')]))
                           (Throw (Error ''boom''))))"


section \<open>Proofs about TableData\<close>

subsection \<open>The store and the loops over columns\<close>

lemma setValues_simps [simp]:
  "heap (setValues r vs t) = (heap t)(r := (heap t r)\<lparr>values := vs\<rparr>)"
  "columns (setValues r vs t) = columns t"
  "colArray (setValues r vs t) = colArray t"
  "rowMap (setValues r vs t) = rowMap t"
  "isLoaded (setValues r vs t) = isLoaded t"
  "tableId (setValues r vs t) = tableId t"
  "fetchPromise (setValues r vs t) = fetchPromise t"
  "nextRef (setValues r vs t) = nextRef t"
  by (simp_all add: setValues_def)

lemma rowIdCol_setValues [simp]:
  "rowIdCol (setValues r vs t) = (if r = idRef then vs else rowIdCol t)"
  by (simp add: rowIdCol_def)

lemma rowIdCol_rowMap_update [simp]: "rowIdCol (t\<lparr>rowMap := m\<rparr>) = rowIdCol t"
  by (simp add: rowIdCol_def)

lemma rowIdCol_isLoaded_update [simp]: "rowIdCol (t\<lparr>isLoaded := b\<rparr>) = rowIdCol t"
  by (simp add: rowIdCol_def)

lemma fold_updCol_fields [simp]:
  "columns (fold (updCol F) rs t) = columns t"
  "colArray (fold (updCol F) rs t) = colArray t"
  "rowMap (fold (updCol F) rs t) = rowMap t"
  "isLoaded (fold (updCol F) rs t) = isLoaded t"
  "tableId (fold (updCol F) rs t) = tableId t"
  "fetchPromise (fold (updCol F) rs t) = fetchPromise t"
  "nextRef (fold (updCol F) rs t) = nextRef t"
  by (induction rs arbitrary: t; simp add: updCol_def)+

lemma heap_fold_updCol:
  "distinct rs \<Longrightarrow>
   heap (fold (updCol F) rs t) r =
     (if r \<in> set rs then (heap t r)\<lparr>values := F (heap t r)\<rparr> else heap t r)"
proof (induction rs arbitrary: t)
  case Nil
  then show ?case by simp
next
  case (Cons a rs)
  then show ?case by (auto simp: updCol_def)
qed

lemma fold_loadColumn_fields [simp]:
  "columns (fold (loadColumn cv) rs t) = columns t"
  "colArray (fold (loadColumn cv) rs t) = colArray t"
  "rowMap (fold (loadColumn cv) rs t) = rowMap t"
  "isLoaded (fold (loadColumn cv) rs t) = isLoaded t"
  "tableId (fold (loadColumn cv) rs t) = tableId t"
  "fetchPromise (fold (loadColumn cv) rs t) = fetchPromise t"
  "nextRef (fold (loadColumn cv) rs t) = nextRef t"
  by (induction rs arbitrary: t; simp add: loadColumn_def Let_def)+

lemma loadedValues_values [simp]: "loadedValues cv n (c\<lparr>values := vs\<rparr>) = loadedValues cv n c"
  by (simp add: loadedValues_def split: option.splits)

lemma heap_fold_loadColumn:
  "idRef \<notin> set rs \<Longrightarrow>
   heap (fold (loadColumn cv) rs t) r =
     (if r \<in> set rs then (heap t r)\<lparr>values := loadedValues cv (length (rowIdCol t)) (heap t r)\<rparr>
      else heap t r)"
proof (induction rs arbitrary: t)
  case Nil
  then show ?case by simp
next
  case (Cons a rs)
  have step: "heap (loadColumn cv a t) =
      (heap t)(a := (heap t a)\<lparr>values := loadedValues cv (length (rowIdCol t)) (heap t a)\<rparr>)"
    by (simp add: loadColumn_def Let_def loadedValues_def map_replicate_const split: option.splits)
  from Cons.prems have a: "a \<noteq> idRef" and rs: "idRef \<notin> set rs" by auto
  have ids: "rowIdCol (loadColumn cv a t) = rowIdCol t"
    using a by (simp add: loadColumn_def Let_def)
  show ?case
    using Cons.IH [OF rs, of "loadColumn cv a t"] by (simp add: step ids)
qed

lemma map_of_indexRows_notin:
  "k \<notin> set xs \<Longrightarrow> map_of (indexRows xs i m) k = map_of m k"
  by (induction xs arbitrary: i m) (auto simp: update_conv')

lemma map_of_indexRows_last:
  "j < length xs \<Longrightarrow> \<forall>j'. j < j' \<and> j' < length xs \<longrightarrow> xs ! j' \<noteq> xs ! j \<Longrightarrow>
   map_of (indexRows xs i m) (xs ! j) = Some (i + j)"
proof (induction xs arbitrary: i m j)
  case Nil
  then show ?case by simp
next
  case (Cons x xs)
  show ?case
  proof (cases j)
    case 0
    with Cons.prems have "x \<notin> set xs"
      by (force simp: in_set_conv_nth)
    then show ?thesis using 0 by (simp add: map_of_indexRows_notin update_conv')
  next
    case (Suc j0)
    with Cons.prems have "j0 < length xs" by simp
    moreover from Cons.prems Suc have "\<forall>j'. j0 < j' \<and> j' < length xs \<longrightarrow> xs ! j' \<noteq> xs ! j0"
      by (metis Suc_less_eq length_Cons nth_Cons_Suc)
    ultimately show ?thesis using Cons.IH [of j0 "Suc i" "AList.update x i m"] Suc by simp
  qed
qed

lemma distinct_indexRows:
  "distinct (map fst m) \<Longrightarrow> distinct (map fst (indexRows xs i m))"
  by (induction xs arbitrary: i m) (auto simp: distinct_update)

lemma loadData_parts:
  assumes "idRef \<notin> set (colArray t)"
  shows "fst (loadData (TableDataAction tid rowIds cv) t) = rowIdCol t"
    and "rowIdCol (snd (loadData (TableDataAction tid rowIds cv) t)) = rowIds"
    and "heap (snd (loadData (TableDataAction tid rowIds cv) t)) r =
          (if r = idRef then (heap t r)\<lparr>values := rowIds\<rparr>
           else if r \<in> set (colArray t)
                then (heap t r)\<lparr>values := loadedValues cv (length rowIds) (heap t r)\<rparr>
                else heap t r)"
    and "rowMap (snd (loadData (TableDataAction tid rowIds cv) t)) = indexRows rowIds 0 []"
    and "columns (snd (loadData (TableDataAction tid rowIds cv) t)) = columns t"
    and "colArray (snd (loadData (TableDataAction tid rowIds cv) t)) = colArray t"
    and "isLoaded (snd (loadData (TableDataAction tid rowIds cv) t))"
    and "tableId (snd (loadData (TableDataAction tid rowIds cv) t)) = tableId t"
    and "fetchPromise (snd (loadData (TableDataAction tid rowIds cv) t)) = fetchPromise t"
    and "nextRef (snd (loadData (TableDataAction tid rowIds cv) t)) = nextRef t"
  using assms
  by (auto simp: loadData_def Let_def heap_fold_loadColumn rowIdCol_def)

subsection \<open>The index under additions and removals\<close>


lemma jsSet_end [simp]: "jsSet xs (length xs) v = xs @ [v]"
  by (simp add: jsSet_def)

lemma length_jsSet [simp]: "length (jsSet xs i v) = max (length xs) (Suc i)"
  by (auto simp: jsSet_def)

lemma jsGet_nat [simp]: "jsGet xs (int i) = (if i < length xs then xs ! i else Undefined)"
  by (simp add: jsGet_def)

lemma jsGet_last: "xs \<noteq> [] \<Longrightarrow> jsGet xs (int (length xs) - 1) = xs ! (length xs - 1)"
  by (cases xs rule: rev_cases) (auto simp: jsGet_def nth_append)





subsection \<open>The handlers keep the invariant\<close>

lemma pairs_map_of:
  "distinct (map fst m) \<Longrightarrow>
   (\<forall>(k, i) \<in> set m. P k i) = (\<forall>k i. map_of m k = Some i \<longrightarrow> P k i)"
  by auto

lemma schemaOk_refs:
  "schemaOk t \<Longrightarrow> set (map snd (columns t)) \<union> set (colArray t) = insert idRef (set (colArray t))"
  unfolding schemaOk_def by blast

lemma tableOk_alt:
  "tableOk t \<longleftrightarrow>
     schemaOk t \<and> idxOk (rowIdCol t) (rowMap t) \<and>
     (\<forall>r \<in> set (colArray t). length (values (heap t r)) = length (rowIdCol t))"
proof (cases "schemaOk t \<and> distinct (map fst (rowMap t))")
  case False
  then show ?thesis by (auto simp: tableOk_def idxOk_def)
next
  case True
  then have s: "schemaOk t" and d: "distinct (map fst (rowMap t))" by auto
  have c: "(\<forall>r \<in> set (map snd (columns t)) \<union> set (colArray t).
              length (values (heap t r)) = length (rowIdCol t)) =
           (\<forall>r \<in> set (colArray t). length (values (heap t r)) = length (rowIdCol t))"
    unfolding schemaOk_refs [OF s] by (simp add: rowIdCol_def)
  show ?thesis
    unfolding tableOk_def indexConsistent_def idxOk_def c pairs_map_of [OF d]
    using s d by blast
qed

lemma schemaOk_cong:
  "columns t' = columns t \<Longrightarrow> colArray t' = colArray t \<Longrightarrow> schemaOk t' = schemaOk t"
  by (simp add: schemaOk_def)






lemma writeCell_fields [simp]:
  "columns (writeCell index cid v t) = columns t"
  "colArray (writeCell index cid v t) = colArray t"
  "rowMap (writeCell index cid v t) = rowMap t"
  "isLoaded (writeCell index cid v t) = isLoaded t"
  "tableId (writeCell index cid v t) = tableId t"
  "fetchPromise (writeCell index cid v t) = fetchPromise t"
  "nextRef (writeCell index cid v t) = nextRef t"
  by (simp_all add: writeCell_def split: option.splits)









lemma bulkAddIds_fields [simp]:
  "columns (bulkAddIds xs k t) = columns t"
  "colArray (bulkAddIds xs k t) = colArray t"
  "isLoaded (bulkAddIds xs k t) = isLoaded t"
  "tableId (bulkAddIds xs k t) = tableId t"
  "fetchPromise (bulkAddIds xs k t) = fetchPromise t"
  "nextRef (bulkAddIds xs k t) = nextRef t"
  by (induction xs k t rule: bulkAddIds.induct; simp)+





subsection \<open>A table that was just built and loaded satisfies the invariant\<close>

lemma update_new_key: "k \<notin> fst ` set al \<Longrightarrow> AList.update k v al = al @ [(k, v)]"
  by (induction al) auto

lemma buildOk_fold_initColumn:
  "buildOk t \<Longrightarrow> distinct (map fst cts) \<Longrightarrow> fst ` set cts \<inter> fst ` set (columns t) = {} \<Longrightarrow>
   buildOk (fold (initColumn gd) cts t) \<and>
   fst ` set (columns (fold (initColumn gd) cts t)) = fst ` set (columns t) \<union> fst ` set cts"
proof (induction cts arbitrary: t)
  case Nil
  then show ?case by simp
next
  case (Cons ct cts)
  let ?t1 = "initColumn gd ct t"
  from Cons.prems have new: "fst ct \<notin> fst ` set (columns t)" by auto
  have c1: "columns ?t1 = columns t @ [(fst ct, nextRef t)]"
    by (simp add: initColumn_def Let_def update_new_key [OF new])
  have a1: "colArray ?t1 = colArray t @ [nextRef t]" "nextRef ?t1 = Suc (nextRef t)"
    by (simp_all add: initColumn_def Let_def)
  have b1: "buildOk ?t1"
    using Cons.prems(1) unfolding buildOk_def c1 a1 by (auto simp: less_Suc_eq)
  have k1: "fst ` set cts \<inter> fst ` set (columns ?t1) = {}"
    using Cons.prems(2,3) unfolding c1 by auto
  from Cons.prems(2) have d1: "distinct (map fst cts)" by simp
  from Cons.IH [OF b1 d1 k1] show ?case unfolding c1 by auto
qed

lemma schemaOk_newTableData:
  assumes d: "distinct (map fst cts)" and n: "''id'' \<notin> fst ` set cts"
  shows "schemaOk (newTableData gd tid cts)"
proof -
  define t0 where "t0 = \<lparr>tableId = tid, isLoaded = False, fetchPromise = None, columns = [],
                colArray = [], rowMap = [],
                heap = (\<lambda>r. emptyColData)
                  (idRef := \<lparr>colId = ''id'', type = ''Id'', defl = Num 0, values = []\<rparr>),
                nextRef = Suc idRef\<rparr>"
  define t1 where "t1 = fold (initColumn gd) cts t0"
  have nt: "newTableData gd tid cts = t1\<lparr>columns := AList.update ''id'' idRef (columns t1)\<rparr>"
    by (simp add: newTableData_def Let_def t0_def t1_def)
  have "buildOk t0" by (simp add: buildOk_def t0_def)
  from buildOk_fold_initColumn [OF this d, of gd]
  have b: "buildOk t1" and k: "fst ` set (columns t1) = fst ` set cts"
    by (simp_all add: t1_def t0_def)
  from k n have cs: "AList.update ''id'' idRef (columns t1) = columns t1 @ [(''id'', idRef)]"
    by (simp add: update_new_key)
  from b have nid: "idRef \<notin> set (colArray t1)" by (auto simp: buildOk_def)
  have cols: "columns (newTableData gd tid cts) = columns t1 @ [(''id'', idRef)]"
    by (simp add: nt cs)
  have ca: "colArray (newTableData gd tid cts) = colArray t1" by (simp add: nt)
  have "map_of (columns t1) ''id'' = None" using k n by (simp add: map_of_eq_None_iff)
  then show ?thesis
    unfolding schemaOk_def cols ca using b nid by (auto simp: buildOk_def map_add_def)
qed

lemma tableOk_loadData:
  assumes s: "schemaOk t" and nums: "list_all isNum rowIds" and d: "distinct rowIds"
    and lens: "\<forall>r \<in> set (colArray t). \<forall>vs. map_of cv (colId (heap t r)) = Some vs \<longrightarrow>
                 length vs = length rowIds"
  shows "tableOk (snd (loadData (TableDataAction tid rowIds cv) t))"
proof -
  let ?t' = "snd (loadData (TableDataAction tid rowIds cv) t)"
  from s have nid: "idRef \<notin> set (colArray t)" by (simp add: schemaOk_def)
  note p = loadData_parts [OF nid, of tid rowIds cv]
  have s': "schemaOk ?t'" using s by (simp add: schemaOk_cong [OF p(5) p(6)])
  have a: "\<forall>i<length rowIds. map_of (indexRows rowIds 0 []) (rowIds ! i) = Some i"
  proof (intro allI impI)
    fix i assume i: "i < length rowIds"
    have "\<forall>j'. i < j' \<and> j' < length rowIds \<longrightarrow> rowIds ! j' \<noteq> rowIds ! i"
      using d i by (auto simp: nth_eq_iff_index_eq)
    from map_of_indexRows_last [OF i this, of 0 "[]"]
    show "map_of (indexRows rowIds 0 []) (rowIds ! i) = Some i" by simp
  qed
  have b: "\<forall>k i. map_of (indexRows rowIds 0 []) k = Some i \<longrightarrow> isNum k \<longrightarrow>
             i < length rowIds \<and> rowIds ! i = k"
  proof (intro allI impI)
    fix k i assume m: "map_of (indexRows rowIds 0 []) k = Some i"
    have "k \<in> set rowIds"
      using m map_of_indexRows_notin [of k rowIds 0 "[]"] by (cases "k \<in> set rowIds") auto
    then obtain j where j: "j < length rowIds" "rowIds ! j = k" by (auto simp: in_set_conv_nth)
    with a m have "i = j" by auto
    with j show "i < length rowIds \<and> rowIds ! i = k" by simp
  qed
  have ix: "idxOk rowIds (indexRows rowIds 0 [])"
    unfolding idxOk_def using nums a b by (simp add: distinct_indexRows)
  have l: "\<forall>r \<in> set (colArray t). length (values (heap ?t' r)) = length rowIds"
    using nid lens by (auto simp: p(3) loadedValues_def split: option.splits)
  show ?thesis
    unfolding tableOk_alt using s' ix l by (simp add: p(2) p(4) p(6))
qed




subsection \<open>Index consistency\<close>




subsection \<open>The skip policy of receiveAction\<close>

text \<open>
  Claim C8. \<open>receiveAction\<close> returns true exactly when the table is loaded or the action
  is a schema action, and then the table is the one \<open>dispatchAction\<close> gives; a row-data
  action that reaches a table that is not loaded is skipped: the result is false and the
  table is unchanged. Nothing is raised on that path (the result is a plain value).
\<close>

theorem receiveAction_skip_policy:
  "fst (receiveAction gd a t) = (isLoaded t \<or> isSchemaAction a) \<and>
   (isLoaded t \<or> isSchemaAction a \<longrightarrow> snd (receiveAction gd a t) = dispatchAction gd a t) \<and>
   (\<not> isLoaded t \<longrightarrow> \<not> isSchemaAction a \<longrightarrow> receiveAction gd a t = (False, t))"
  by (simp add: receiveAction_def)

lemma newTableData_not_loaded: "\<not> isLoaded (newTableData gd tid colTypes)"
proof -
  have "\<And>t. isLoaded (fold (initColumn gd) colTypes t) = isLoaded t"
    by (induction colTypes) (simp_all add: initColumn_def Let_def)
  then show ?thesis by (simp add: newTableData_def Let_def)
qed

theorem receiveAction_skip_policy_witness:
  "\<not> isLoaded (newTableData exampleDefault ''T'' [(''A'', ''Text'')]) \<and>
   \<not> isSchemaAction (AddRecord ''T'' (Num 1) [(''A'', Str ''a'')]) \<and>
   receiveAction exampleDefault (AddRecord ''T'' (Num 1) [(''A'', Str ''a'')])
       (newTableData exampleDefault ''T'' [(''A'', ''Text'')])
     = (False, newTableData exampleDefault ''T'' [(''A'', ''Text'')]) \<and>
   isLoaded exampleTable \<and>
   fst (receiveAction exampleDefault (AddRecord ''T'' (Num 3) []) exampleTable) \<and>
   snd (receiveAction exampleDefault (AddRecord ''T'' (Num 3) []) exampleTable)
     = dispatchAction exampleDefault (AddRecord ''T'' (Num 3) []) exampleTable"
proof -
  have l: "isLoaded exampleTable" by code_simp
  show ?thesis
    using receiveAction_skip_policy [of exampleDefault "AddRecord ''T'' (Num 1) [(''A'', Str ''a'')]"
        "newTableData exampleDefault ''T'' [(''A'', ''Text'')]"]
      receiveAction_skip_policy [of exampleDefault "AddRecord ''T'' (Num 3) []" exampleTable]
      newTableData_not_loaded l
    by simp
qed

subsection \<open>Queries on absent rows and columns\<close>

text \<open>
  Claim C9 says that no query throws on an absent row or column, \<open>filterRecords\<close> with a
  key that names no column in particular. \<open>getValue\<close>, \<open>getColValues\<close>, \<open>getRecord\<close> and
  \<open>findRow\<close> test for the absent column or row; \<open>filterRecords\<close> does not, and reads
  \<open>.values\<close> of \<open>undefined\<close> as soon as the table has a row: on the example table, which has
  two rows and no column \<open>nosuch\<close>, it throws a \<open>TypeError\<close>.
\<close>

theorem filterRecords_absent_column_throws:
  "numRecords exampleTable = 2 \<and> map_of (columns exampleTable) ''nosuch'' = None \<and>
   filterRecords [(''nosuch'', Num 1)] exampleTable = Inl TypeError"
  by code_simp

text \<open>
  The other queries give their absent result, and \<open>filterRecords\<close> itself does not throw
  when every key names a column or the table has no rows.
\<close>

lemma queries_absent_column:
  "map_of (columns t) c = None \<Longrightarrow>
   getValue k c t = Undefined \<and> getColValues c t = None \<and> findRow c v t = Num 0"
  by (simp add: getValue_def getColValues_def findRow_def)

lemma queries_absent_row:
  "map_of (rowMap t) k = None \<Longrightarrow> getValue k c t = Undefined \<and> getRecord k t = None"
  by (simp add: getValue_def getRecord_def split: option.splits)

lemma indexOf_absent: "v \<notin> set xs \<Longrightarrow> indexOf xs v = -1"
  by (induction xs) (auto simp: Let_def)

lemma findRow_absent_value:
  "map_of (columns t) c = Some r \<Longrightarrow> v \<notin> set (values (heap t r)) \<Longrightarrow> findRow c v t = Num 0"
  by (simp add: findRow_def indexOf_absent)

lemma rowMatches_known:
  "\<forall>p \<in> set props. snd p \<noteq> None \<Longrightarrow> \<exists>b. rowMatches t i props = Inr b"
  by (induction t i props rule: rowMatches.induct) auto

lemma matchingRows_known:
  "\<forall>p \<in> set props. snd p \<noteq> None \<Longrightarrow> \<exists>is'. matchingRows t props is = Inr is'"
proof (induction "is")
  case Nil
  then show ?case by simp
next
  case (Cons i "is")
  from rowMatches_known [OF Cons.prems, of t i] obtain b where "rowMatches t i props = Inr b"
    by blast
  moreover from Cons.IH [OF Cons.prems] obtain is' where "matchingRows t props is = Inr is'"
    by blast
  ultimately show ?case by simp
qed

lemma filterRecords_known_columns:
  assumes "\<forall>p \<in> set properties. map_of (columns t) (fst p) \<noteq> None"
  shows "\<exists>records. filterRecords properties t = Inr records"
proof -
  have "\<forall>p \<in> set (map (\<lambda>(p, v). (v, map_of (columns t) p)) properties). snd p \<noteq> None"
    using assms by auto
  from matchingRows_known [OF this, of t "[0..<length (rowIdCol t)]"]
  show ?thesis by (auto simp: filterRecords_def Let_def)
qed

lemma filterRecords_no_rows: "rowIdCol t = [] \<Longrightarrow> filterRecords properties t = Inr []"
  by (simp add: filterRecords_def Let_def)

subsection \<open>loadData replaces the table\<close>



lemma four_elems: "length vs = 4 \<Longrightarrow> vs = [vs ! 0, vs ! 1, vs ! 2, vs ! 3]"
  by (auto simp: numeral_eq_Suc length_Suc_conv)

lemma onRemoveRecord_found:
  assumes s: "schemaOk t" and ix: "map_of (rowMap t) rowId = Some index"
  shows "heap (onRemoveRecord rowId t) r =
           (if r \<in> insert idRef (set (colArray t))
            then (heap t r)\<lparr>values := jsPop (jsSet (values (heap t r)) index
                    (jsGet (values (heap t r)) (int (length (rowIdCol t)) - 1)))\<rparr>
            else heap t r)"
    and "rowMap (onRemoveRecord rowId t) =
           AList.delete rowId
             (AList.update (jsGet (rowIdCol (onRemoveRecord rowId t)) (int index)) index (rowMap t))"
proof -
  from s have d: "distinct (map snd (columns t))"
    and refs: "set (map snd (columns t)) = insert idRef (set (colArray t))"
    by (auto simp: schemaOk_def)
  show "heap (onRemoveRecord rowId t) r =
           (if r \<in> insert idRef (set (colArray t))
            then (heap t r)\<lparr>values := jsPop (jsSet (values (heap t r)) index
                    (jsGet (values (heap t r)) (int (length (rowIdCol t)) - 1)))\<rparr>
            else heap t r)"
    using ix heap_fold_updCol [OF d] refs by (simp add: onRemoveRecord_def Let_def)
  show "rowMap (onRemoveRecord rowId t) =
           AList.delete rowId
             (AList.update (jsGet (rowIdCol (onRemoveRecord rowId t)) (int index)) index (rowMap t))"
    using ix by (simp add: onRemoveRecord_def Let_def rowIdCol_def)
qed

lemma removeStep4:
  "length vs = 4 \<Longrightarrow> jsPop (jsSet vs 1 (jsGet vs (int 4 - 1))) = [vs ! 0, vs ! 3, vs ! 2]"
proof -
  assume "length vs = 4"
  then obtain a b c d where "vs = [a, b, c, d]"
    by (auto simp: numeral_eq_Suc length_Suc_conv)
  then show ?thesis by (simp add: jsPop_def jsSet_def jsGet_def)
qed

subsection \<open>Removal moves the last row into the freed position\<close>

text \<open>
  Claim C4. In a table that satisfies the invariant and holds the row ids 1, 2, 3, 4 in
  storage order, \<open>RemoveRecord\<close> of id 2 leaves the row ids 1, 4, 3: in every column the
  value of the last row (id 4) moves to position 1, where id 2 was, and the array gets
  shorter by one; \<open>_rowMap\<close> sends 4 to position 1 and forgets 2; \<open>getSortedRowIds\<close>
  gives 1, 3, 4.
\<close>

theorem removal_reordering:
  assumes ok: "tableOk t" and ids: "rowIdCol t = [Num 1, Num 2, Num 3, Num 4]"
  shows
    "rowIdCol (dispatchAction gd (RemoveRecord tid (Num 2)) t) = [Num 1, Num 4, Num 3] \<and>
     (\<forall>r \<in> set (map snd (columns t)) \<union> set (colArray t).
        values (heap (dispatchAction gd (RemoveRecord tid (Num 2)) t) r) =
          [values (heap t r) ! 0, values (heap t r) ! 3, values (heap t r) ! 2]) \<and>
     map_of (rowMap (dispatchAction gd (RemoveRecord tid (Num 2)) t)) (Num 4) = Some 1 \<and>
     map_of (rowMap (dispatchAction gd (RemoveRecord tid (Num 2)) t)) (Num 2) = None \<and>
     getSortedRowIds (dispatchAction gd (RemoveRecord tid (Num 2)) t) = [Num 1, Num 3, Num 4]"
proof -
  let ?t' = "onRemoveRecord (Num 2) t"
  from ok have s: "schemaOk t" and ic: "indexConsistent t" by (simp_all add: tableOk_def)
  from ic have "\<forall>i<length (rowIdCol t). map_of (rowMap t) (rowIdCol t ! i) = Some i"
    by (simp add: indexConsistent_def)
  then have "1 < length (rowIdCol t) \<longrightarrow> map_of (rowMap t) (rowIdCol t ! 1) = Some 1"
    by blast
  with ids have ix: "map_of (rowMap t) (Num 2) = Some 1" by simp
  from ic ids have len: "\<And>r. r \<in> set (map snd (columns t)) \<union> set (colArray t) \<Longrightarrow>
      length (values (heap t r)) = 4"
    unfolding indexConsistent_def by simp
  note h = onRemoveRecord_found [OF s ix]
  have n: "int (length (rowIdCol t)) - 1 = int 4 - 1" using ids by simp
  have vals: "\<And>r. r \<in> set (map snd (columns t)) \<union> set (colArray t) \<Longrightarrow>
      values (heap ?t' r) = [values (heap t r) ! 0, values (heap t r) ! 3, values (heap t r) ! 2]"
  proof -
    fix r assume r: "r \<in> set (map snd (columns t)) \<union> set (colArray t)"
    then have "r \<in> insert idRef (set (colArray t))" unfolding schemaOk_refs [OF s] .
    then have "values (heap ?t' r) =
        jsPop (jsSet (values (heap t r)) 1 (jsGet (values (heap t r)) (int 4 - 1)))"
      unfolding h(1) n by simp
    with removeStep4 [OF len [OF r]] show "values (heap ?t' r) =
        [values (heap t r) ! 0, values (heap t r) ! 3, values (heap t r) ! 2]" by simp
  qed
  have "idRef \<in> set (map snd (columns t)) \<union> set (colArray t)"
    unfolding schemaOk_refs [OF s] by simp
  from vals [OF this] have ids': "rowIdCol ?t' = [Num 1, Num 4, Num 3]"
    using ids by (simp add: rowIdCol_def)
  have rm: "map_of (rowMap ?t') = ((map_of (rowMap t))(Num 4 \<mapsto> 1))(Num 2 := None)"
    unfolding h(2) ids' by (simp add: delete_conv' update_conv' jsGet_def)
  have sorted: "getSortedRowIds ?t' = [Num 1, Num 3, Num 4]"
    by (simp add: getSortedRowIds_def ids' jsSort_def)
  show ?thesis
    using ids' vals sorted by (simp add: rm)
qed

theorem removal_reordering_witness:
  "tableOk exampleTable4 \<and> rowIdCol exampleTable4 = [Num 1, Num 2, Num 3, Num 4] \<and>
   getColValues ''A'' exampleTable4 = Some [Str ''a'', Str ''b'', Str ''c'', Str ''d''] \<and>
   rowIdCol (dispatchAction exampleDefault (RemoveRecord ''T'' (Num 2)) exampleTable4)
     = [Num 1, Num 4, Num 3] \<and>
   getColValues ''A'' (dispatchAction exampleDefault (RemoveRecord ''T'' (Num 2)) exampleTable4)
     = Some [Str ''a'', Str ''d'', Str ''c''] \<and>
   getSortedRowIds (dispatchAction exampleDefault (RemoveRecord ''T'' (Num 2)) exampleTable4)
     = [Num 1, Num 3, Num 4]"
proof -
  have a: "tableOk exampleTable4" by code_simp
  have b: "rowIdCol exampleTable4 = [Num 1, Num 2, Num 3, Num 4]" by code_simp
  have c: "getColValues ''A'' exampleTable4 = Some [Str ''a'', Str ''b'', Str ''c'', Str ''d'']"
    by code_simp
  have d: "getColValues ''A'' (dispatchAction exampleDefault (RemoveRecord ''T'' (Num 2)) exampleTable4)
     = Some [Str ''a'', Str ''d'', Str ''c'']" by code_simp
  from removal_reordering [OF a b, of exampleDefault "''T''"] a b c d
  show ?thesis by blast
qed

subsection \<open>Round trip through getTableDataAction\<close>











section \<open>Proofs about fetchData\<close>

lemma newTableData_no_fetch: "fetchPromise (newTableData gd tid colTypes) = None"
proof -
  have "\<And>t. fetchPromise (fold (initColumn gd) colTypes t) = fetchPromise t"
    by (induction colTypes) (simp_all add: initColumn_def Let_def)
  then show ?thesis by (simp add: newTableData_def Let_def)
qed

lemma loadData_fetchPromise:
  "fetchPromise (snd (loadData d t)) = fetchPromise t"
  by (simp add: loadData_def Let_def)

lemma loadData_isLoaded: "isLoaded (snd (loadData d t))"
  by (simp add: loadData_def Let_def)

text \<open>
  Claim C3. On a table with no fetch in flight (a table that was never loaded is one), a
  second call of \<open>fetchData\<close> made before the fetch of the first is settled returns the
  promise the first call returned, and that promise is pending; \<open>fetchFunc\<close> has been
  called once, with the table id. When the fetch succeeds, its result goes to
  \<open>loadData\<close> and the promise is fulfilled.
\<close>

theorem fetch_deduplication:
  assumes "fetchPromise (table w) = None"
  shows
    "fst (fetchData (snd (fetchData w))) = fst (fetchData w) \<and>
     fetchCalls (snd (fetchData (snd (fetchData w)))) = fetchCalls w @ [tableId (table w)] \<and>
     promises (snd (fetchData (snd (fetchData w)))) ! fst (fetchData w) = Pending \<and>
     table (fetchResolved (fst (fetchData w)) d (snd (fetchData (snd (fetchData w))))) =
       snd (loadData d (table w)) \<and>
     promises (fetchResolved (fst (fetchData w)) d (snd (fetchData (snd (fetchData w)))))
       ! fst (fetchData w) = Fulfilled"
proof -
  from assms have h: "(table w)\<lparr>fetchPromise := None\<rparr> = table w" by simp
  show ?thesis
    using assms by (simp add: fetchData_def fetchResolved_def Let_def nth_append h)
qed

theorem fetch_deduplication_witness:
  "fetchPromise (table exampleWorld) = None \<and> \<not> isLoaded (table exampleWorld) \<and>
   fst (fetchData exampleWorld) = 0 \<and>
   fst (fetchData (snd (fetchData exampleWorld))) = 0 \<and>
   fetchCalls (snd (fetchData (snd (fetchData exampleWorld)))) = [''T''] \<and>
   isLoaded (table (fetchResolved 0 exampleSnapshot (snd (fetchData (snd (fetchData exampleWorld))))))"
proof -
  have a: "fetchPromise (table exampleWorld) = None"
    by (simp add: exampleWorld_def newTableData_no_fetch)
  have b: "\<not> isLoaded (table exampleWorld)"
    by (simp add: exampleWorld_def newTableData_not_loaded)
  have c: "fst (fetchData exampleWorld) = 0" "fetchCalls exampleWorld = []"
    "tableId (table exampleWorld) = ''T''"
    by code_simp+
  from fetch_deduplication [OF a, of exampleSnapshot] a b c show ?thesis
    by (simp add: loadData_isLoaded)
qed

lemma settled_fetchStep:
  assumes "fetchPromise (table w) = Some p"
    and "\<forall>k<length (promises w). promises w ! k \<noteq> Pending"
  shows "fetchStep ev w = w"
  using assms by (cases ev) (auto simp: fetchData_def fetchResolved_def fetchRejected_def)

lemma settled_fold_fetchStep:
  assumes "fetchPromise (table w) = Some p"
    and "\<forall>k<length (promises w). promises w ! k \<noteq> Pending"
  shows "fold fetchStep es w = w"
  by (induction es) (simp_all add: settled_fetchStep [OF assms])

lemma inflight_repeatFetch:
  "fetchPromise (table w) = Some p \<Longrightarrow> repeatFetch n w = (replicate n p, w)"
  by (induction n) (simp_all add: fetchData_def Let_def)

text \<open>
  Claim C10. When the fetch of the promise in \<open>_fetchPromise\<close> is rejected (no other fetch
  being pending, as \<open>fetchData\<close> keeps it), \<open>_fetchPromise\<close> keeps the promise, now
  rejected, and the table is as it was. From then on every call of \<open>fetchData\<close> returns
  that promise without calling \<open>fetchFunc\<close>, and no run of calls of \<open>fetchData\<close> and of
  fetch outcomes changes anything: the table never becomes loaded that way.
\<close>

theorem fetch_rejection_sticks:
  assumes f: "fetchPromise (table w) = Some p"
    and p: "p < length (promises w)" "promises w ! p = Pending"
    and others: "\<forall>k<length (promises w). k \<noteq> p \<longrightarrow> promises w ! k \<noteq> Pending"
  shows
    "fetchPromise (table (fetchRejected p e w)) = Some p \<and>
     promises (fetchRejected p e w) ! p = Rejected e \<and>
     table (fetchRejected p e w) = table w \<and>
     (\<forall>n. repeatFetch n (fetchRejected p e w) = (replicate n p, fetchRejected p e w)) \<and>
     (\<forall>es. fold fetchStep es (fetchRejected p e w) = fetchRejected p e w) \<and>
     (\<forall>es. isLoaded (table (fold fetchStep es (fetchRejected p e w))) = isLoaded (table w) \<and>
           fetchCalls (fold fetchStep es (fetchRejected p e w)) = fetchCalls w)"
proof -
  let ?w = "fetchRejected p e w"
  have w': "?w = w\<lparr>promises := (promises w)[p := Rejected e]\<rparr>"
    using p by (simp add: fetchRejected_def)
  have f': "fetchPromise (table ?w) = Some p" using f by (simp add: w')
  have settled: "\<forall>k<length (promises ?w). promises ?w ! k \<noteq> Pending"
    using others p by (auto simp: w' nth_list_update)
  note stuck = settled_fold_fetchStep [OF f' settled]
  have "promises ?w ! p = Rejected e" using p by (simp add: w')
  moreover have "table ?w = table w" by (simp add: w')
  moreover have "\<forall>n. repeatFetch n ?w = (replicate n p, ?w)"
    using inflight_repeatFetch [OF f'] by blast
  moreover have "\<forall>es. isLoaded (table (fold fetchStep es ?w)) = isLoaded (table w) \<and>
           fetchCalls (fold fetchStep es ?w) = fetchCalls w"
    unfolding stuck by (simp add: w')
  ultimately show ?thesis using f' stuck by blast
qed

theorem fetch_rejection_sticks_witness:
  "fetchPromise (table (snd (fetchData exampleWorld))) = Some 0 \<and>
   promises (snd (fetchData exampleWorld)) = [Pending] \<and>
   promises (fetchRejected 0 ''offline'' (snd (fetchData exampleWorld))) = [Rejected ''offline''] \<and>
   repeatFetch 2 (fetchRejected 0 ''offline'' (snd (fetchData exampleWorld))) =
     ([0, 0], fetchRejected 0 ''offline'' (snd (fetchData exampleWorld))) \<and>
   fetchCalls (fold fetchStep [CallFetchData, FetchResolved 0 exampleSnapshot, CallFetchData]
       (fetchRejected 0 ''offline'' (snd (fetchData exampleWorld)))) = [''T''] \<and>
   \<not> isLoaded (table (fold fetchStep [CallFetchData, FetchResolved 0 exampleSnapshot, CallFetchData]
       (fetchRejected 0 ''offline'' (snd (fetchData exampleWorld)))))"
proof -
  let ?w = "snd (fetchData exampleWorld)"
  have n: "fetchPromise (table exampleWorld) = None"
    by (simp add: exampleWorld_def newTableData_no_fetch)
  have l: "\<not> isLoaded (table exampleWorld)"
    by (simp add: exampleWorld_def newTableData_not_loaded)
  have w: "?w = exampleWorld\<lparr>fetchCalls := [''T''], promises := [Pending],
                 table := (table exampleWorld)\<lparr>fetchPromise := Some 0\<rparr>\<rparr>"
    using n by (simp add: fetchData_def Let_def) (simp add: exampleWorld_def newTableData_def Let_def initColumn_def)
  have a: "fetchPromise (table ?w) = Some 0" by (simp add: w)
  have b: "0 < length (promises ?w)" "promises ?w ! 0 = Pending" by (simp_all add: w)
  have c: "\<forall>k<length (promises ?w). k \<noteq> 0 \<longrightarrow> promises ?w ! k \<noteq> Pending" by (simp add: w)
  have d: "promises (fetchRejected 0 ''offline'' ?w) = [Rejected ''offline'']"
    by (simp add: fetchRejected_def w)
  have e: "fetchCalls ?w = [''T'']" "isLoaded (table ?w) = isLoaded (table exampleWorld)"
    "promises ?w = [Pending]"
    by (simp_all add: w)
  let ?es = "[CallFetchData, FetchResolved 0 exampleSnapshot, CallFetchData]"
  note t = fetch_rejection_sticks [OF a b c, of "''offline''"]
  from t have r: "repeatFetch 2 (fetchRejected 0 ''offline'' ?w) =
      (replicate 2 0, fetchRejected 0 ''offline'' ?w)" by blast
  from t have s: "isLoaded (table (fold fetchStep ?es (fetchRejected 0 ''offline'' ?w))) =
      isLoaded (table ?w)"
    "fetchCalls (fold fetchStep ?es (fetchRejected 0 ''offline'' ?w)) = fetchCalls ?w"
    by blast+
  have two: "replicate 2 (0::nat) = [0, 0]" by (simp add: numeral_2_eq_2)
  show ?thesis
    unfolding r s two e using a d l by simp
qed

section \<open>Proofs about SQLiteDB\<close>

lemma sameButContent_refl [simp]: "sameButContent h h"
  by (simp add: sameButContent_def)

lemma sameButContent_trans:
  "sameButContent h h1 \<Longrightarrow> sameButContent h1 h2 \<Longrightarrow> sameButContent h h2"
  by (simp add: sameButContent_def)

lemma execStatement_same: "sameButContent h (snd (execStatement f h))"
  by (simp add: execStatement_def sameButContent_def split: sum.splits)

lemma requestVacuum_inside:
  "inTransaction h \<Longrightarrow> sameButContent h (snd (requestVacuum h))"
  by (simp add: requestVacuum_def sameButContent_def)

lemma run_inside:
  "inTransaction h \<Longrightarrow> sameButContent h (snd (run b h))"
  "inTransaction h \<Longrightarrow> sameButContent h (snd (execTransaction b h))"
proof (induction b h and b h rule: run_execTransaction.induct)
  case (4 a b h)
  show ?case
  proof (cases "run a h")
    case (Pair r h1)
    from "4.IH"(1) [OF "4.prems"] Pair have s1: "sameButContent h h1" by simp
    show ?thesis
    proof (cases r)
      case None
      from s1 "4.prems" have "inTransaction h1" by (simp add: sameButContent_def)
      from "4.IH"(2) [OF _ _ this] Pair None have "sameButContent h1 (snd (run b h1))" by simp
      with s1 Pair None show ?thesis by (auto intro: sameButContent_trans)
    next
      case (Some e)
      with s1 Pair show ?thesis by simp
    qed
  qed
next
  case (5 a b h)
  show ?case
  proof (cases "run a h")
    case (Pair r h1)
    from "5.IH"(1) [OF "5.prems"] Pair have s1: "sameButContent h h1" by simp
    show ?thesis
    proof (cases r)
      case None
      with s1 Pair show ?thesis by simp
    next
      case (Some e)
      from s1 "5.prems" have "inTransaction h1" by (simp add: sameButContent_def)
      from "5.IH"(2) [OF _ _ this] Pair Some have "sameButContent h1 (snd (run b h1))" by simp
      with s1 Pair Some show ?thesis by (auto intro: sameButContent_trans)
    qed
  qed
qed (simp_all add: execStatement_same requestVacuum_inside)

lemma execTransaction_outer:
  assumes nt: "\<not> inTransaction h" and ns: "saved h = None"
  shows "fst (execTransaction b h) = fst (run b (began h))"
    and "stmts (snd (execTransaction b h)) =
           stmts h @ [BEGIN, if fst (run b (began h)) = None then COMMIT else ROLLBACK] @
           (if needVacuum (snd (run b (began h))) then [VACUUM] else [])"
    and "cur (snd (execTransaction b h)) =
           (if fst (run b (began h)) = None then cur (snd (run b (began h))) else cur h)"
    and "saved (snd (execTransaction b h)) = None"
    and "\<not> inTransaction (snd (execTransaction b h))"
    and "\<not> needVacuum (snd (execTransaction b h))"
    and "backups (snd (execTransaction b h)) = backups h"
    and "dbPath (snd (execTransaction b h)) = dbPath h"
    and "migrationError (snd (execTransaction b h)) = migrationError h"
    and "migrationBackupPath (snd (execTransaction b h)) = migrationBackupPath h"
    and "readonly (snd (execTransaction b h)) = readonly h"
proof -
  obtain r h2 where run: "run b (began h) = (r, h2)" by (cases "run b (began h)")
  have "inTransaction (began h)" by (simp add: began_def)
  from run_inside(1) [OF this, of b] run have "sameButContent (began h) h2" by simp
  then have f: "saved h2 = Some (cur h)" "stmts h2 = stmts h @ [BEGIN]" "inTransaction h2"
    "readonly h2 = readonly h" "dbPath h2 = dbPath h" "backups h2 = backups h"
    "migrationBackupPath h2 = migrationBackupPath h" "migrationError h2 = migrationError h"
    by (simp_all add: sameButContent_def began_def)
  have b: "execControl BEGIN h = (None, h\<lparr>saved := Some (cur h), stmts := stmts h @ [BEGIN]\<rparr>)"
    using ns by simp
  have bh: "h\<lparr>saved := Some (cur h), stmts := stmts h @ [BEGIN], inTransaction := True\<rparr> = began h"
    by (simp add: began_def)
  have ex: "execTransaction b h =
      (case endTransaction r (h2\<lparr>inTransaction := False\<rparr>) of (r', h3) \<Rightarrow> afterTransaction r' h3)"
    using nt ns by (simp add: bh run)
  show "fst (execTransaction b h) = fst (run b (began h))"
    and "stmts (snd (execTransaction b h)) =
           stmts h @ [BEGIN, if fst (run b (began h)) = None then COMMIT else ROLLBACK] @
           (if needVacuum (snd (run b (began h))) then [VACUUM] else [])"
    and "cur (snd (execTransaction b h)) =
           (if fst (run b (began h)) = None then cur (snd (run b (began h))) else cur h)"
    and "saved (snd (execTransaction b h)) = None"
    and "\<not> inTransaction (snd (execTransaction b h))"
    and "\<not> needVacuum (snd (execTransaction b h))"
    and "backups (snd (execTransaction b h)) = backups h"
    and "dbPath (snd (execTransaction b h)) = dbPath h"
    and "migrationError (snd (execTransaction b h)) = migrationError h"
    and "migrationBackupPath (snd (execTransaction b h)) = migrationBackupPath h"
    and "readonly (snd (execTransaction b h)) = readonly h"
    unfolding ex run
    by (cases r; simp add: endTransaction_def afterTransaction_def requestVacuum_def f)+
qed





subsection \<open>A migration that fails\<close>




subsection \<open>Nested transactions\<close>

text \<open>
  Claim C7. Called while \<open>_inTransaction\<close> is set, \<open>execTransaction\<close> is the run of its
  callback and nothing else: no \<open>BEGIN\<close>, \<open>COMMIT\<close> or \<open>ROLLBACK\<close> is sent and the
  transaction stays open. Called outside a transaction (SQLite having none open), it
  sends \<open>BEGIN\<close>; the callback, whatever calls of \<open>execTransaction\<close> it makes inside
  itself, sends no transaction statement; then, when the callback ended well, \<open>COMMIT\<close>
  keeps all it did, and when it threw, \<open>ROLLBACK\<close> brings back the content from before
  the \<open>BEGIN\<close>, so that all of it is undone together, and the error of the callback is
  thrown again. A \<open>VACUUM\<close> asked for inside runs after that.
\<close>

theorem nested_transaction_merging:
  "(inTransaction h \<longrightarrow>
      execTransaction b h = run b h \<and>
      stmts (snd (execTransaction b h)) = stmts h \<and>
      saved (snd (execTransaction b h)) = saved h \<and>
      inTransaction (snd (execTransaction b h))) \<and>
   (\<not> inTransaction h \<and> saved h = None \<longrightarrow>
      stmts (snd (run b (began h))) = stmts h @ [BEGIN] \<and>
      saved (snd (run b (began h))) = Some (cur h) \<and>
      fst (execTransaction b h) = fst (run b (began h)) \<and>
      stmts (snd (execTransaction b h)) =
        stmts h @ [BEGIN, if fst (run b (began h)) = None then COMMIT else ROLLBACK] @
        (if needVacuum (snd (run b (began h))) then [VACUUM] else []) \<and>
      cur (snd (execTransaction b h)) =
        (if fst (run b (began h)) = None then cur (snd (run b (began h))) else cur h) \<and>
      saved (snd (execTransaction b h)) = None \<and>
      \<not> inTransaction (snd (execTransaction b h)))"
proof (intro conjI impI)
  assume i: "inTransaction h"
  then show "execTransaction b h = run b h" by simp
  from run_inside(2) [OF i, of b]
  show "stmts (snd (execTransaction b h)) = stmts h"
    and "saved (snd (execTransaction b h)) = saved h"
    and "inTransaction (snd (execTransaction b h))"
    using i by (simp_all add: sameButContent_def)
next
  assume a: "\<not> inTransaction h \<and> saved h = None"
  then have nt: "\<not> inTransaction h" and ns: "saved h = None" by simp_all
  have "inTransaction (began h)" by (simp add: began_def)
  from run_inside(1) [OF this, of b]
  show "stmts (snd (run b (began h))) = stmts h @ [BEGIN]"
    and "saved (snd (run b (began h))) = Some (cur h)"
    by (simp_all add: sameButContent_def began_def)
  note o = execTransaction_outer [OF nt ns, of b]
  show "fst (execTransaction b h) = fst (run b (began h))" by (rule o(1))
  show "stmts (snd (execTransaction b h)) =
        stmts h @ [BEGIN, if fst (run b (began h)) = None then COMMIT else ROLLBACK] @
        (if needVacuum (snd (run b (began h))) then [VACUUM] else [])" by (rule o(2))
  show "cur (snd (execTransaction b h)) =
        (if fst (run b (began h)) = None then cur (snd (run b (began h))) else cur h)"
    by (rule o(3))
  show "saved (snd (execTransaction b h)) = None" by (rule o(4))
  show "\<not> inTransaction (snd (execTransaction b h))" by (rule o(5))
qed

theorem nested_transaction_merging_witness:
  "\<not> inTransaction exampleDB \<and> saved exampleDB = None \<and>
   fst (execTransaction nestedOk exampleDB) = None \<and>
   stmts (snd (execTransaction nestedOk exampleDB)) = [BEGIN, COMMIT] \<and>
   map fst (tables (cur (snd (execTransaction nestedOk exampleDB)))) = [''Foo'', ''Bar'', ''Baz''] \<and>
   fst (execTransaction nestedFails exampleDB) = Some (Error ''boom'') \<and>
   stmts (snd (execTransaction nestedFails exampleDB)) = [BEGIN, ROLLBACK] \<and>
   cur (snd (execTransaction nestedFails exampleDB)) = exampleDatabase \<and>
   inTransaction (began exampleDB) \<and>
   execTransaction nestedOk (began exampleDB) = run nestedOk (began exampleDB) \<and>
   stmts (snd (execTransaction nestedOk (began exampleDB))) = [BEGIN]"
proof -
  have a: "\<not> inTransaction exampleDB" "saved exampleDB = None" "stmts exampleDB = []"
    "cur exampleDB = exampleDatabase"
    by (simp_all add: exampleDB_def newSQLiteDB_def)
  have r1: "fst (run nestedOk (began exampleDB)) = None"
    "needVacuum (snd (run nestedOk (began exampleDB))) = False"
    "map fst (tables (cur (snd (run nestedOk (began exampleDB))))) = [''Foo'', ''Bar'', ''Baz'']"
    by code_simp+
  have r2: "fst (run nestedFails (began exampleDB)) = Some (Error ''boom'')"
    "needVacuum (snd (run nestedFails (began exampleDB))) = False"
    by code_simp+
  have i: "inTransaction (began exampleDB)" by (simp add: began_def)
  have s: "stmts (began exampleDB) = [BEGIN]" by (simp add: began_def a)
  from nested_transaction_merging [of exampleDB nestedOk]
    nested_transaction_merging [of exampleDB nestedFails]
    nested_transaction_merging [of "began exampleDB" nestedOk]
  show ?thesis
    using a r1 r2 i s by simp
qed

end
